theory Spec2Isabelle
  imports Complex_Main "HOL-Library.Word"
begin

unbundle bit_operations_syntax

section \<open>Sample types of \<open>convert_common.hpp\<close>\<close>

text \<open>
  \<open>std::complex<T>\<close> is a pair of a real and an imaginary component. The integer
  typedefs of the header are machine words: \<open>boost::int16_t\<close> and \<open>boost::uint16_t\<close>
  are both \<open>16 word\<close> (the signed reading is \<open>sint\<close>, the unsigned one \<open>uint\<close>;
  converting between the two keeps the bits), \<open>item32_t\<close> is \<open>32 word\<close> and
  \<open>item16_t\<close> is \<open>16 word\<close>.
\<close>

record 'a std_complex =
  re :: 'a
  im :: 'a

type_synonym int16_t = "16 word"
type_synonym uint16_t = "16 word"
type_synonym c_int = "32 word"
type_synonym sc16_t = "int16_t std_complex"
type_synonym item32_t = "32 word"
type_synonym item16_t = "16 word"

section \<open>Floating-point values\<close>

text \<open>
  \<open>float\<close> and \<open>double\<close> are IEEE 754 binary32 and binary64 values, with every
  operation rounded to nearest, ties to even, in the format of its C++ result type. A
  finite value is \<open>(-1)\<^sup>s \<cdot> m \<cdot> 2\<^sup>e\<close> with a magnitude \<open>m \<ge> 0\<close>; arithmetic
  returns it with \<open>m\<close> odd (or \<open>m = 0\<close>, \<open>e = 0\<close>), so that equal values of
  either format are equal terms and widening \<open>float\<close> to \<open>double\<close> changes nothing.
\<close>

datatype fp = Finite bool nat int | Infinity bool | NaN

record format =
  prec :: int
  emin :: int
  emax :: int

definition binary32 :: format where
  "binary32 = \<lparr> prec = 24, emin = - 126, emax = 127 \<rparr>"

definition binary64 :: format where
  "binary64 = \<lparr> prec = 53, emin = - 1022, emax = 1023 \<rparr>"

type_synonym c_float = fp
type_synonym c_double = fp
type_synonym fc32_t = "c_float std_complex"
type_synonym fc64_t = "c_double std_complex"

text \<open>The number of binary digits of a magnitude.\<close>

function bitlen :: "nat \<Rightarrow> nat" where
  "bitlen m = (if m = 0 then 0 else 1 + bitlen (m div 2))"
  by pat_completeness auto
termination
  by (relation "measure id") auto

declare bitlen.simps [simp del]

text \<open>Dropping the trailing zero bits of a magnitude.\<close>

function normalize_odd :: "nat \<Rightarrow> int \<Rightarrow> nat \<times> int" where
  "normalize_odd m e =
     (if m = 0 then (0, 0)
      else if odd m then (m, e)
      else normalize_odd (m div 2) (e + 1))"
  by pat_completeness auto
termination
  by (relation "measure fst") auto

declare normalize_odd.simps [simp del]

definition finite_fp :: "bool \<Rightarrow> nat \<Rightarrow> int \<Rightarrow> fp" where
  "finite_fp s m e = (case normalize_odd m e of (m', e') \<Rightarrow> Finite s m' e')"

text \<open>
  Rounding the exact value \<open>(-1)\<^sup>s \<cdot> m \<cdot> 2\<^sup>e\<close> to a format: \<open>q\<close> is the exponent of
  the last digit the format keeps for a value of this size (not below the subnormal
  exponent), \<open>t\<close> the significand in units of \<open>2\<^sup>q\<close> after rounding to nearest with
  ties to even; a result of magnitude \<open>2 ^ (emax + 1)\<close> or more overflows to
  infinity.
\<close>

definition round_to :: "format \<Rightarrow> bool \<Rightarrow> nat \<Rightarrow> int \<Rightarrow> fp" where
  "round_to f s m e =
     (if m = 0 then Finite s 0 0
      else
        let q = max (int (bitlen m) + e - prec f) (emin f - prec f + 1);
            t = (if q \<le> e then m * 2 ^ nat (e - q)
                 else
                   let d = 2 ^ nat (q - e);
                       t0 = m div d;
                       r = m mod d
                   in if d < 2 * r \<or> (2 * r = d \<and> odd t0) then t0 + 1 else t0)
        in if emax f + 1 < int (bitlen t) + q then Infinity s else finite_fp s t q)"

text \<open>Multiplication, with the result rounded to the format of the operands.\<close>

fun fmul :: "format \<Rightarrow> fp \<Rightarrow> fp \<Rightarrow> fp" where
  "fmul f NaN y = NaN"
| "fmul f x NaN = NaN"
| "fmul f (Infinity s) (Infinity t) = Infinity (s \<noteq> t)"
| "fmul f (Infinity s) (Finite t n d) = (if n = 0 then NaN else Infinity (s \<noteq> t))"
| "fmul f (Finite s m e) (Infinity t) = (if m = 0 then NaN else Infinity (s \<noteq> t))"
| "fmul f (Finite s m e) (Finite t n d) = round_to f (s \<noteq> t) (m * n) (e + d)"

text \<open>
  Conversion of an integer, and of a floating value, to a floating format. A \<open>double\<close>
  beyond the range of \<open>float\<close> narrows to an infinity, as in IEEE 754 arithmetic.
\<close>

definition fp_of_int :: "format \<Rightarrow> int \<Rightarrow> fp" where
  "fp_of_int f i = round_to f (i < 0) (nat \<bar>i\<bar>) 0"

fun fp_convert :: "format \<Rightarrow> fp \<Rightarrow> fp" where
  "fp_convert f (Finite s m e) = round_to f s m e"
| "fp_convert f (Infinity s) = Infinity s"
| "fp_convert f NaN = NaN"

text \<open>
  The conversion \<open>boost::int16_t(x)\<close> of a floating value discards the fractional
  part. When the truncated value is not a value of \<open>int16_t\<close>, or \<open>x\<close> is an infinity
  or a NaN, the behaviour of the C++ conversion is undefined: \<open>None\<close>.
\<close>

definition truncate_magnitude :: "nat \<Rightarrow> int \<Rightarrow> nat" where
  "truncate_magnitude m e = (if 0 \<le> e then m * 2 ^ nat e else m div 2 ^ nat (- e))"

fun fp_to_int16 :: "fp \<Rightarrow> int16_t option" where
  "fp_to_int16 (Finite s m e) =
     (let t = (if s then - int (truncate_magnitude m e) else int (truncate_magnitude m e))
      in if - 32768 \<le> t \<and> t \<le> 32767 then Some (word_of_int t) else None)"
| "fp_to_int16 (Infinity s) = None"
| "fp_to_int16 NaN = None"

section \<open>Converters to and from 32-bit items\<close>

text \<open>
  The scale factor of the converters between complex short and items is an unnamed
  \<open>double\<close> parameter of the source: the model keeps the argument and does not use it.
\<close>

definition sc16_to_item32 :: "sc16_t \<Rightarrow> c_double \<Rightarrow> item32_t" where
  "sc16_to_item32 num sf =
     (let real = (re num :: uint16_t);
          imag = (im num :: uint16_t)
      in push_bit 16 (ucast real :: item32_t) OR push_bit 0 (ucast imag :: item32_t))"

definition item32_to_sc16 :: "item32_t \<Rightarrow> c_double \<Rightarrow> sc16_t" where
  "item32_to_sc16 item sf =
     \<lparr> re = (ucast (drop_bit 16 item) :: int16_t),
       im = (ucast (drop_bit 0 item) :: int16_t) \<rparr>"

text \<open>
  A converter from floating samples returns \<open>None\<close> where one of its two conversions
  to \<open>boost::int16_t\<close> is undefined. The converters to \<open>float\<close> samples convert the
  integer component to \<open>float\<close> and multiply in \<open>float\<close>.
\<close>

definition fc32_to_item32 :: "fc32_t \<Rightarrow> c_float \<Rightarrow> item32_t option" where
  "fc32_to_item32 num scale_factor =
     (case fp_to_int16 (fmul binary32 (re num) scale_factor) of
        None \<Rightarrow> None
      | Some (real_u :: uint16_t) \<Rightarrow>
          (case fp_to_int16 (fmul binary32 (im num) scale_factor) of
             None \<Rightarrow> None
           | Some (imag_u :: uint16_t) \<Rightarrow>
               Some (push_bit 16 (ucast real_u :: item32_t) OR push_bit 0 (ucast imag_u :: item32_t))))"

definition item32_to_fc32 :: "item32_t \<Rightarrow> c_float \<Rightarrow> fc32_t" where
  "item32_to_fc32 item scale_factor =
     \<lparr> re = fp_convert binary32
              (fmul binary32 (fp_of_int binary32 (sint (ucast (drop_bit 16 item) :: int16_t)))
                 scale_factor),
       im = fp_convert binary32
              (fmul binary32 (fp_of_int binary32 (sint (ucast (drop_bit 0 item) :: int16_t)))
                 scale_factor) \<rparr>"

definition fc64_to_item32 :: "fc64_t \<Rightarrow> c_double \<Rightarrow> item32_t option" where
  "fc64_to_item32 num scale_factor =
     (case fp_to_int16 (fmul binary64 (re num) scale_factor) of
        None \<Rightarrow> None
      | Some (real_u :: uint16_t) \<Rightarrow>
          (case fp_to_int16 (fmul binary64 (im num) scale_factor) of
             None \<Rightarrow> None
           | Some (imag_u :: uint16_t) \<Rightarrow>
               Some (push_bit 16 (ucast real_u :: item32_t) OR push_bit 0 (ucast imag_u :: item32_t))))"

text \<open>
  In the converters to complex double the product is a \<open>double\<close>, the cast
  \<open>float(...)\<close> narrows it, and the constructor of \<open>fc64_t\<close> widens the \<open>float\<close>
  again.
\<close>

definition item32_to_fc64 :: "item32_t \<Rightarrow> c_double \<Rightarrow> fc64_t" where
  "item32_to_fc64 item scale_factor =
     \<lparr> re = fp_convert binary64 (fp_convert binary32
              (fmul binary64 (fp_of_int binary64 (sint (ucast (drop_bit 16 item) :: int16_t)))
                 scale_factor)),
       im = fp_convert binary64 (fp_convert binary32
              (fmul binary64 (fp_of_int binary64 (sint (ucast (drop_bit 0 item) :: int16_t)))
                 scale_factor)) \<rparr>"

section \<open>Converters to and from 16-bit items\<close>

text \<open>
  In the 16-bit functions the operands of \<open><<\<close>, \<open>>>\<close> and \<open>|\<close> are promoted to
  \<open>int\<close> (32 bits) before the operation, and the result is converted back to the
  16-bit return type, which keeps the low 16 bits.
\<close>

definition sc16_to_item16 :: "sc16_t \<Rightarrow> c_double \<Rightarrow> item16_t" where
  "sc16_to_item16 num sf =
     (let real = (re num :: uint16_t);
          imag = (im num :: uint16_t)
      in ucast (push_bit 8 (ucast real :: c_int) OR push_bit 0 (ucast imag :: c_int)))"

definition item16_to_sc16 :: "item16_t \<Rightarrow> c_double \<Rightarrow> sc16_t" where
  "item16_to_sc16 item sf =
     \<lparr> re = (ucast (drop_bit 8 (ucast item :: c_int)) :: int16_t),
       im = (ucast (drop_bit 0 (ucast item :: c_int)) :: int16_t) \<rparr>"

definition fc32_to_item16 :: "fc32_t \<Rightarrow> c_float \<Rightarrow> item16_t option" where
  "fc32_to_item16 num scale_factor =
     (case fp_to_int16 (fmul binary32 (re num) scale_factor) of
        None \<Rightarrow> None
      | Some (real_u :: uint16_t) \<Rightarrow>
          (case fp_to_int16 (fmul binary32 (im num) scale_factor) of
             None \<Rightarrow> None
           | Some (imag_u :: uint16_t) \<Rightarrow>
               Some (ucast (push_bit 8 (ucast real_u :: c_int) OR push_bit 0 (ucast imag_u :: c_int)))))"

definition item16_to_fc32 :: "item16_t \<Rightarrow> c_float \<Rightarrow> fc32_t" where
  "item16_to_fc32 item scale_factor =
     \<lparr> re = fp_convert binary32
              (fmul binary32
                 (fp_of_int binary32 (sint (ucast (drop_bit 8 (ucast item :: c_int)) :: int16_t)))
                 scale_factor),
       im = fp_convert binary32
              (fmul binary32
                 (fp_of_int binary32 (sint (ucast (drop_bit 0 (ucast item :: c_int)) :: int16_t)))
                 scale_factor) \<rparr>"

definition fc64_to_item16 :: "fc64_t \<Rightarrow> c_double \<Rightarrow> item16_t option" where
  "fc64_to_item16 num scale_factor =
     (case fp_to_int16 (fmul binary64 (re num) scale_factor) of
        None \<Rightarrow> None
      | Some (real_u :: uint16_t) \<Rightarrow>
          (case fp_to_int16 (fmul binary64 (im num) scale_factor) of
             None \<Rightarrow> None
           | Some (imag_u :: uint16_t) \<Rightarrow>
               Some (ucast (push_bit 8 (ucast real_u :: c_int) OR push_bit 0 (ucast imag_u :: c_int)))))"

definition item16_to_fc64 :: "item16_t \<Rightarrow> c_double \<Rightarrow> fc64_t" where
  "item16_to_fc64 item scale_factor =
     \<lparr> re = fp_convert binary64 (fp_convert binary32
              (fmul binary64
                 (fp_of_int binary64 (sint (ucast (drop_bit 8 (ucast item :: c_int)) :: int16_t)))
                 scale_factor)),
       im = fp_convert binary64 (fp_convert binary32
              (fmul binary64
                 (fp_of_int binary64 (sint (ucast (drop_bit 0 (ucast item :: c_int)) :: int16_t)))
                 scale_factor)) \<rparr>"

section \<open>What the specification says of the conversion\<close>

text \<open>The two's-complement reading of an unsigned 16-bit field value.\<close>

definition twos_complement16 :: "int \<Rightarrow> int" where
  "twos_complement16 u = (u + 32768) mod 65536 - 32768"



text \<open>
  The real number a finite floating value denotes, the specification's
  \<open>truncate_toward_zero\<close>, and the values a format can hold.
\<close>

fun fp_real :: "fp \<Rightarrow> real option" where
  "fp_real (Finite s m e) =
     Some ((if s then - 1 else 1) * (if 0 \<le> e then of_nat m * 2 ^ nat e else of_nat m / 2 ^ nat (- e)))"
| "fp_real (Infinity s) = None"
| "fp_real NaN = None"

definition truncate_toward_zero :: "real \<Rightarrow> int" where
  "truncate_toward_zero x = (if x < 0 then \<lceil>x\<rceil> else \<lfloor>x\<rfloor>)"

fun representable :: "format \<Rightarrow> fp \<Rightarrow> bool" where
  "representable f (Finite s m e) =
     (if m = 0 then e = 0
      else odd m \<and> m < 2 ^ nat (prec f) \<and> emin f - prec f + 1 \<le> e
           \<and> int (bitlen m) + e \<le> emax f + 1)"
| "representable f (Infinity s) = True"
| "representable f NaN = True"


section \<open>The property tree\<close>

type_synonym fs_path = string

text \<open>
  Modelled from the spec: the value domain of the property tree (the tree's header and
  implementation are not among the sources). Values are booleans, integers, floating
  values, strings and opaque domain records; the tree only tags them with their type.
\<close>

datatype prop_type = T_bool | T_int | T_floating | T_string | T_opaque string

datatype prop_value =
  V_bool bool | V_int int | V_floating fp | V_string string | V_opaque string string

fun type_of :: "prop_value \<Rightarrow> prop_type" where
  "type_of (V_bool b) = T_bool"
| "type_of (V_int i) = T_int"
| "type_of (V_floating x) = T_floating"
| "type_of (V_string s) = T_string"
| "type_of (V_opaque t c) = T_opaque t"

text \<open>
  Modelled from the spec: the error kinds of the property tree (section 7 of the
  specification; the tree's sources are missing).
\<close>

datatype tree_error =
  AlreadyExists | NotFound | TypeMismatch | NotInitialized | AlreadyPublished
  | HardwareWriteError

text \<open>
  Modelled from the spec: a property node (its class is not among the sources): the
  optional stored value, the coercions and subscribers in registration order and at most
  one publisher. The callbacks act on the hardware, a state \<open>'hw\<close> outside the tree: a
  subscriber writes to it and may fail, a publisher reads it.
\<close>

record 'hw property_node =
  node_type :: prop_type
  current :: "prop_value option"
  coercions :: "(prop_value \<Rightarrow> prop_value) list"
  subscribers :: "(prop_value \<Rightarrow> 'hw \<Rightarrow> 'hw option) list"
  publisher :: "('hw \<Rightarrow> prop_value) option"

text \<open>
  Modelled from the spec: the tree (missing from the sources) maps canonical paths to
  nodes; the hardware state is carried beside it.
\<close>

record 'hw property_tree =
  nodes :: "fs_path \<rightharpoonup> 'hw property_node"
  hardware :: 'hw

text \<open>
  Modelled from the spec: \<open>create<T>(path)\<close> of the missing tree inserts a new node of
  type \<open>T\<close>, is a no-op on an existing node of the same type and fails with
  \<open>AlreadyExists\<close> on one of a different type.
\<close>

definition create_node :: "prop_type \<Rightarrow> fs_path \<Rightarrow> 'hw property_tree \<Rightarrow> tree_error + 'hw property_tree" where
  "create_node ty p t =
     (case nodes t p of
        Some n \<Rightarrow> if node_type n = ty then Inr t else Inl AlreadyExists
      | None \<Rightarrow>
          Inr (t\<lparr> nodes := (nodes t)(p \<mapsto>
                 \<lparr> node_type = ty, current = None, coercions = [], subscribers = [],
                   publisher = None \<rparr>) \<rparr>))"

text \<open>
  Modelled from the spec: \<open>coerce\<close>, \<open>subscribe\<close> and \<open>publish\<close> of the missing tree
  append to the lists of an existing node and fail with \<open>NotFound\<close> without one; a
  second \<open>publish\<close> fails with \<open>AlreadyPublished\<close>.
\<close>

definition coerce_node :: "fs_path \<Rightarrow> (prop_value \<Rightarrow> prop_value) \<Rightarrow> 'hw property_tree \<Rightarrow> tree_error + 'hw property_tree" where
  "coerce_node p c t =
     (case nodes t p of
        None \<Rightarrow> Inl NotFound
      | Some n \<Rightarrow> Inr (t\<lparr> nodes := (nodes t)(p \<mapsto> n\<lparr> coercions := coercions n @ [c] \<rparr>) \<rparr>))"

definition subscribe_node :: "fs_path \<Rightarrow> (prop_value \<Rightarrow> 'hw \<Rightarrow> 'hw option) \<Rightarrow> 'hw property_tree \<Rightarrow> tree_error + 'hw property_tree" where
  "subscribe_node p f t =
     (case nodes t p of
        None \<Rightarrow> Inl NotFound
      | Some n \<Rightarrow> Inr (t\<lparr> nodes := (nodes t)(p \<mapsto> n\<lparr> subscribers := subscribers n @ [f] \<rparr>) \<rparr>))"

definition publish_node :: "fs_path \<Rightarrow> ('hw \<Rightarrow> prop_value) \<Rightarrow> 'hw property_tree \<Rightarrow> tree_error + 'hw property_tree" where
  "publish_node p f t =
     (case nodes t p of
        None \<Rightarrow> Inl NotFound
      | Some n \<Rightarrow>
          (case publisher n of
             Some g \<Rightarrow> Inl AlreadyPublished
           | None \<Rightarrow> Inr (t\<lparr> nodes := (nodes t)(p \<mapsto> n\<lparr> publisher := Some f \<rparr>) \<rparr>)))"

text \<open>
  Modelled from the spec: the subscriber sequence of \<open>set\<close> (missing from the sources):
  every subscriber in registration order; the first failure stops the sequence and the
  effects of the subscribers before it stay.
\<close>

fun run_subscribers :: "(prop_value \<Rightarrow> 'hw \<Rightarrow> 'hw option) list \<Rightarrow> prop_value \<Rightarrow> 'hw \<Rightarrow> 'hw \<times> tree_error option" where
  "run_subscribers [] v h = (h, None)"
| "run_subscribers (f # fs) v h =
     (case f v h of
        None \<Rightarrow> (h, Some HardwareWriteError)
      | Some h' \<Rightarrow> run_subscribers fs v h')"

text \<open>
  Modelled from the spec: \<open>set(path, value)\<close> of the missing tree runs the coercions in
  order, stores the result as \<open>current\<close>, then invokes the subscribers with it. The
  result is the tree after the call and the error the call raised, if any: a missing
  node and a value of another type than the node's change nothing, a failing subscriber
  leaves the stored value and the earlier effects.
\<close>

definition set_value :: "fs_path \<Rightarrow> prop_value \<Rightarrow> 'hw property_tree \<Rightarrow> 'hw property_tree \<times> tree_error option" where
  "set_value p v t =
     (case nodes t p of
        None \<Rightarrow> (t, Some NotFound)
      | Some n \<Rightarrow>
          if type_of v \<noteq> node_type n then (t, Some TypeMismatch)
          else
            let v' = foldl (\<lambda>x c. c x) v (coercions n);
                stored = (nodes t)(p \<mapsto> n\<lparr> current := Some v' \<rparr>)
            in case run_subscribers (subscribers n) v' (hardware t) of
                 (h, err) \<Rightarrow> (\<lparr> nodes = stored, hardware = h \<rparr>, err))"

text \<open>
  Modelled from the spec: \<open>get(path)\<close> of the missing tree invokes the publisher when
  there is one, and returns \<open>current\<close> otherwise, failing with \<open>NotInitialized\<close> when
  nothing is stored.
\<close>

definition get_value :: "fs_path \<Rightarrow> 'hw property_tree \<Rightarrow> tree_error + prop_value" where
  "get_value p t =
     (case nodes t p of
        None \<Rightarrow> Inl NotFound
      | Some n \<Rightarrow>
          (case publisher n of
             Some f \<Rightarrow> Inr (f (hardware t))
           | None \<Rightarrow>
               (case current n of
                  None \<Rightarrow> Inl NotInitialized
                | Some v \<Rightarrow> Inr v)))"

section \<open>Bring-up of the USRP1 property tree\<close>

text \<open>
  The constructor \<open>usrp1_impl::usrp1_impl\<close> populates the tree with \<open>create\<close> calls.
  The model lists the paths a run creates, in the order the constructor creates them.
\<close>

text \<open>
  Modelled from the spec: \<open>fs_path::operator/\<close> (defined with the property tree,
  outside the sources) joins two paths with the separator \<open>/\<close> of the path syntax.
\<close>

definition slash :: "fs_path \<Rightarrow> fs_path \<Rightarrow> fs_path" where
  "slash a b = a @ ''/'' @ b"

text \<open>
  Modelled from the spec: \<open>subtree(path)\<close> of the property tree (missing from the
  sources) is a view that rebases every operation under \<open>path\<close>: a \<open>create\<close> of a
  relative path through the view creates the node below the root of the view.
\<close>

definition subtree_create :: "fs_path \<Rightarrow> fs_path \<Rightarrow> fs_path" where
  "subtree_create base rel = slash base rel"

definition mb_path :: fs_path where
  "mb_path = ''/mboards/0''"

text \<open>The keys of \<open>_dbc\<close>, which the constructor inserts in this order.\<close>

definition dbc_keys :: "string list" where
  "dbc_keys = [''A'', ''B'']"

text \<open>The capabilities register \<open>FR_RB_CAPS\<close> gives the number of DDCs and DUCs.\<close>

definition get_num_ddcs :: "32 word \<Rightarrow> nat" where
  "get_num_ddcs regval = unat (drop_bit 0 regval AND 0x0007)"

definition get_num_ducs :: "32 word \<Rightarrow> nat" where
  "get_num_ducs regval = unat (drop_bit 4 regval AND 0x0007)"

text \<open>The format \<open>%u\<close>: an unsigned number in decimal.\<close>

function decimal :: "nat \<Rightarrow> string" where
  "decimal n =
     (if n < 10 then [char_of (48 + n)]
      else decimal (n div 10) @ [char_of (48 + n mod 10)])"
  by pat_completeness auto
termination
  by (relation "measure id") auto

declare decimal.simps [simp del]

text \<open>
  What the constructor reads from outside: the capabilities register, the subdevice
  names of each daughterboard manager and, for the subtree
  \<open>dboard_manager::populate_prop_tree_from_subdev\<close> is given, the relative paths it
  creates through that subtree.
\<close>

record bring_up =
  fr_rb_caps :: "32 word"
  get_rx_subdev_names :: "string \<Rightarrow> string list"
  get_tx_subdev_names :: "string \<Rightarrow> string list"
  populate_prop_tree_from_subdev :: "fs_path \<Rightarrow> fs_path list"

definition codec_creates :: "string \<Rightarrow> fs_path list" where
  "codec_creates db =
     (let rx_codec_path = slash (slash mb_path ''rx_codecs'') db;
          tx_codec_path = slash (slash mb_path ''tx_codecs'') db
      in [slash rx_codec_path ''name'',
          slash rx_codec_path ''gains/pga/range'',
          slash rx_codec_path ''gains/pga/value'',
          slash tx_codec_path ''name'',
          slash tx_codec_path ''gains/pga/range'',
          slash tx_codec_path ''gains/pga/value''])"

definition rx_dsp_creates :: "nat \<Rightarrow> fs_path list" where
  "rx_dsp_creates dspno =
     (let rx_dsp_path = slash mb_path (''rx_dsps/'' @ decimal dspno)
      in [slash rx_dsp_path ''rate/value'',
          slash rx_dsp_path ''freq/value'',
          slash rx_dsp_path ''freq/range'',
          slash rx_dsp_path ''stream_cmd''])"

definition tx_dsp_creates :: "nat \<Rightarrow> fs_path list" where
  "tx_dsp_creates dspno =
     (let tx_dsp_path = slash mb_path (''tx_dsps/'' @ decimal dspno)
      in [slash tx_dsp_path ''rate/value'',
          slash tx_dsp_path ''freq/value'',
          slash tx_dsp_path ''freq/range''])"

definition subdev_creates :: "bring_up \<Rightarrow> fs_path \<Rightarrow> fs_path list" where
  "subdev_creates env base =
     map (subtree_create base) (populate_prop_tree_from_subdev env base)"

definition dboard_creates :: "bring_up \<Rightarrow> string \<Rightarrow> fs_path list" where
  "dboard_creates env db =
     (let db_path = slash (slash mb_path ''dboards'') db
      in [slash db_path ''rx_eeprom'',
          slash db_path ''tx_eeprom'',
          slash db_path ''gdb_eeprom'',
          slash db_path ''iface'']
         @ concat (map (\<lambda>name. subdev_creates env (slash (slash db_path ''rx_frontends'') name))
                   (get_rx_subdev_names env db))
         @ concat (map (\<lambda>name. subdev_creates env (slash (slash db_path ''tx_frontends'') name))
                   (get_tx_subdev_names env db)))"

definition usrp1_impl_creates :: "bring_up \<Rightarrow> fs_path list" where
  "usrp1_impl_creates env =
     [''/name'',
      slash mb_path ''name'',
      slash mb_path ''load_eeprom'']
     @ [slash mb_path ''eeprom'']
     @ [slash mb_path ''tick_rate'']
     @ concat (map codec_creates dbc_keys)
     @ [slash mb_path ''sensors'']
     @ [slash mb_path ''rx_subdev_spec'',
        slash mb_path ''tx_subdev_spec'']
     @ [slash mb_path ''rx_dsps'']
     @ concat (map rx_dsp_creates [0 ..< get_num_ddcs (fr_rb_caps env)])
     @ [slash mb_path ''tx_dsps'']
     @ concat (map tx_dsp_creates [0 ..< get_num_ducs (fr_rb_caps env)])
     @ [slash mb_path ''time/now'',
        slash mb_path ''clock_source/options'',
        slash mb_path ''time_source/options'',
        slash mb_path ''clock_source/value'',
        slash mb_path ''time_source/value'']
     @ concat (map (dboard_creates env) dbc_keys)"

text \<open>
  A call that throws ends the constructor, so a run makes the first \<open>k\<close> calls of the
  list for some \<open>k\<close>.
\<close>

definition usrp1_impl_run :: "bring_up \<Rightarrow> nat \<Rightarrow> fs_path list" where
  "usrp1_impl_run env k = take k (usrp1_impl_creates env)"

subsection \<open>The groups of the dependency order\<close>

text \<open>
  A node belongs to a group by the path it is created at. \<open>starts_with\<close> tests for a
  leading directory, \<open>segments\<close> gives the names between the separators of a path.
\<close>

fun starts_with :: "string \<Rightarrow> string \<Rightarrow> bool" where
  "starts_with [] s = True"
| "starts_with (p # ps) [] = False"
| "starts_with (p # ps) (c # cs) = (p = c \<and> starts_with ps cs)"

fun segments :: "string \<Rightarrow> string list" where
  "segments [] = [[]]"
| "segments (c # cs) =
     (if c = CHR ''/'' then [] # segments cs
      else (case segments cs of [] \<Rightarrow> [[c]] | s # ss \<Rightarrow> (c # s) # ss))"

datatype node_group =
  Capabilities | Clock | Codecs | Sensors | Frontends | Dsp_stages | Time | Daughterboards

fun group_rank :: "node_group \<Rightarrow> nat" where
  "group_rank Capabilities = 0"
| "group_rank Clock = 1"
| "group_rank Codecs = 2"
| "group_rank Sensors = 3"
| "group_rank Frontends = 4"
| "group_rank Dsp_stages = 5"
| "group_rank Time = 6"
| "group_rank Daughterboards = 7"

text \<open>
  The seven groups as the specification names them, read off the paths: the identity
  nodes, \<open>tick_rate\<close>, the nodes of a codec, the nodes of a frontend (the subdevice
  selection and every node in an \<open>rx_frontends\<close> or \<open>tx_frontends\<close> directory), the
  nodes of a DSP stage, the time and reference source nodes, and the remaining nodes of
  a daughterboard. The specification names no group for the sensors node.
\<close>

definition spec_group :: "fs_path \<Rightarrow> node_group option" where
  "spec_group p =
     (if p \<in> {''/name'', ''/mboards/0/name'', ''/mboards/0/load_eeprom'', ''/mboards/0/eeprom''}
        then Some Capabilities
      else if p = ''/mboards/0/tick_rate'' then Some Clock
      else if starts_with ''/mboards/0/rx_codecs/'' p \<or> starts_with ''/mboards/0/tx_codecs/'' p
        then Some Codecs
      else if p \<in> {''/mboards/0/rx_subdev_spec'', ''/mboards/0/tx_subdev_spec''}
              \<or> ''rx_frontends'' \<in> set (segments p) \<or> ''tx_frontends'' \<in> set (segments p)
        then Some Frontends
      else if p \<in> {''/mboards/0/rx_dsps'', ''/mboards/0/tx_dsps''}
              \<or> starts_with ''/mboards/0/rx_dsps/'' p \<or> starts_with ''/mboards/0/tx_dsps/'' p
        then Some Dsp_stages
      else if starts_with ''/mboards/0/time/'' p \<or> starts_with ''/mboards/0/clock_source/'' p
              \<or> starts_with ''/mboards/0/time_source/'' p
        then Some Time
      else if starts_with ''/mboards/0/dboards/'' p then Some Daughterboards
      else None)"

text \<open>
  The groups the constructor creates in order: as above, but the sensors node is a group
  of its own, the frontend group holds the two subdevice selection nodes only, and every
  node below \<open>dboards\<close> is a daughterboard node, those of its frontends included.
\<close>

definition bring_up_group :: "fs_path \<Rightarrow> node_group option" where
  "bring_up_group p =
     (if p \<in> {''/name'', ''/mboards/0/name'', ''/mboards/0/load_eeprom'', ''/mboards/0/eeprom''}
        then Some Capabilities
      else if p = ''/mboards/0/tick_rate'' then Some Clock
      else if starts_with ''/mboards/0/rx_codecs/'' p \<or> starts_with ''/mboards/0/tx_codecs/'' p
        then Some Codecs
      else if p = ''/mboards/0/sensors'' then Some Sensors
      else if p \<in> {''/mboards/0/rx_subdev_spec'', ''/mboards/0/tx_subdev_spec''}
        then Some Frontends
      else if p \<in> {''/mboards/0/rx_dsps'', ''/mboards/0/tx_dsps''}
              \<or> starts_with ''/mboards/0/rx_dsps/'' p \<or> starts_with ''/mboards/0/tx_dsps/'' p
        then Some Dsp_stages
      else if starts_with ''/mboards/0/time/'' p \<or> starts_with ''/mboards/0/clock_source/'' p
              \<or> starts_with ''/mboards/0/time_source/'' p
        then Some Time
      else if starts_with ''/mboards/0/dboards/'' p then Some Daughterboards
      else None)"

text \<open>Two paths both have a group, and the group of the first is not the later one.\<close>

definition in_order :: "fs_path \<Rightarrow> fs_path \<Rightarrow> bool" where
  "in_order a b =
     (case (bring_up_group a, bring_up_group b) of
        (Some g, Some h) \<Rightarrow> group_rank g \<le> group_rank h
      | _ \<Rightarrow> False)"

section \<open>The 32-bit item layout\<close>

lemma hi16_join:
  "ucast (drop_bit 16 (push_bit 16 (ucast (a :: 16 word) :: 32 word) OR ucast (b :: 16 word))) = a"
  by (rule bit_word_eqI) (auto simp add: bit_simps dest: bit_imp_le_length)

lemma lo16_join:
  "ucast (push_bit 16 (ucast (a :: 16 word) :: 32 word) OR ucast (b :: 16 word)) = b"
  by (rule bit_word_eqI) (auto simp add: bit_simps)

lemma join_split16:
  "push_bit 16 (ucast (ucast (drop_bit 16 w) :: 16 word) :: 32 word)
     OR ucast (ucast (w :: 32 word) :: 16 word) = w"
  by (rule bit_word_eqI) (auto simp add: bit_simps)

lemma sint_twos_complement16: "sint (w :: 16 word) = twos_complement16 (uint w)"
  by (simp add: sint_uint signed_take_bit_eq_take_bit_shift take_bit_eq_mod
      twos_complement16_def)

lemma uint_join16:
  "uint (push_bit 16 (ucast (a :: 16 word) :: 32 word) OR ucast (b :: 16 word))
     = uint a * 65536 + uint b"
proof -
  have "push_bit 16 (ucast a :: 32 word) OR ucast b = push_bit 16 (ucast a :: 32 word) + ucast b"
    by (rule disjunctive_add [symmetric]) (auto simp add: bit_simps dest: bit_imp_le_length)
  then have "uint (push_bit 16 (ucast a :: 32 word) OR ucast b)
      = (uint a * 65536 + uint b) mod 2 ^ 32"
    by (simp add: uint_word_ariths push_bit_eq_mult uint_up_ucast is_up mod_simps)
  also have "\<dots> = uint a * 65536 + uint b"
    using uint_lt2p [of a] uint_lt2p [of b] uint_ge_0 [of a] uint_ge_0 [of b] by simp
  finally show ?thesis .
qed

lemma uint_hi16: "uint (ucast (drop_bit 16 (item :: 32 word)) :: 16 word) = uint item div 65536"
proof -
  have d: "uint (drop_bit 16 item) = uint item div 65536"
    by (simp add: drop_bit_eq_div uint_div_distrib)
  have "uint (ucast (drop_bit 16 item) :: 16 word) = uint (drop_bit 16 item) mod 65536"
    by (simp add: unsigned_ucast_eq take_bit_eq_mod del: unsigned_drop_bit_eq)
  also have "\<dots> = uint item div 65536"
  proof -
    have "0 \<le> uint item div 65536" "uint item div 65536 < 65536"
      using uint_lt2p [of item] uint_ge_0 [of item]
      by (simp_all add: pos_imp_zdiv_nonneg_iff)
    then show ?thesis by (simp add: d)
  qed
  finally show ?thesis .
qed

lemma uint_lo16: "uint (ucast (item :: 32 word) :: 16 word) = uint item mod 65536"
  by (simp add: unsigned_ucast_eq take_bit_eq_mod)

text \<open>
  Claim C2. Packing a complex short puts the two's-complement encoding of the real
  component in bits 31--16 of the item and that of the imaginary component in bits
  15--0: read as an unsigned number the item is \<open>R \<cdot> 2\<^sup>1\<^sup>6 + I\<close>, with \<open>R\<close> and \<open>I\<close>
  the components modulo \<open>2\<^sup>1\<^sup>6\<close>. Unpacking an item returns the two's-complement
  readings of its upper and of its lower 16 bits.
\<close>

theorem item32_layout:
  fixes num :: sc16_t and item :: item32_t and sf :: c_double
  shows "uint (sc16_to_item32 num sf)
           = (sint (re num) mod 2 ^ 16) * 2 ^ 16 + sint (im num) mod 2 ^ 16
         \<and> sint (re (item32_to_sc16 item sf)) = twos_complement16 (uint item div 2 ^ 16)
         \<and> sint (im (item32_to_sc16 item sf)) = twos_complement16 (uint item mod 2 ^ 16)"
proof -
  have "uint (sc16_to_item32 num sf) = uint (re num) * 65536 + uint (im num)"
    by (simp add: sc16_to_item32_def uint_join16)
  moreover have "uint (re num) = sint (re num) mod 2 ^ 16" "uint (im num) = sint (im num) mod 2 ^ 16"
    by (simp_all add: uint_sint take_bit_eq_mod)
  moreover have "sint (re (item32_to_sc16 item sf)) = twos_complement16 (uint item div 2 ^ 16)"
    using uint_hi16 [of item] by (simp add: item32_to_sc16_def sint_twos_complement16)
  moreover have "sint (im (item32_to_sc16 item sf)) = twos_complement16 (uint item mod 2 ^ 16)"
    using uint_lo16 [of item] by (simp add: item32_to_sc16_def sint_twos_complement16)
  ultimately show ?thesis by simp
qed

theorem item32_layout_witness:
  "uint (sc16_to_item32 \<lparr> re = - 2, im = 3 \<rparr> (Finite False 1 0)) = 65534 * 2 ^ 16 + 3
   \<and> sint (re (item32_to_sc16 0xFFFE0003 (Finite False 1 0))) = - 2
   \<and> sint (im (item32_to_sc16 0xFFFE0003 (Finite False 1 0))) = 3"
  using item32_layout [of "\<lparr> re = - 2, im = 3 \<rparr>" "Finite False 1 0" "0xFFFE0003"]
  by (simp add: twos_complement16_def)

text \<open>
  Claim C10. Unpacking a packed complex short gives the sample back and packing an
  unpacked item gives the item back, so the two conversions are inverse bijections;
  neither result depends on the scale factor.
\<close>

theorem sc16_item32_inverse:
  fixes s :: sc16_t and w :: item32_t and a a' b b' :: c_double
  shows "item32_to_sc16 (sc16_to_item32 s a) b = s
         \<and> sc16_to_item32 (item32_to_sc16 w b) a = w
         \<and> sc16_to_item32 s a = sc16_to_item32 s a'
         \<and> item32_to_sc16 w b = item32_to_sc16 w b'"
  by (simp add: sc16_to_item32_def item32_to_sc16_def hi16_join lo16_join join_split16
      del: drop_bit_or)

section \<open>The 16-bit item layout\<close>

text \<open>
  What the two integer converters to and from 16-bit items compute, on 16-bit words: the
  components are neither masked to 8 bits when packed nor read as 8-bit fields when
  unpacked.
\<close>

lemma sc16_to_item16_eq: "sc16_to_item16 num sf = push_bit 8 (re num) OR im num"
  unfolding sc16_to_item16_def Let_def
  by (rule bit_word_eqI) (auto simp add: bit_simps)

lemma item16_to_sc16_eq: "item16_to_sc16 item sf = \<lparr> re = drop_bit 8 item, im = item \<rparr>"
proof -
  have "(ucast (drop_bit 8 (ucast item :: 32 word)) :: 16 word) = drop_bit 8 item"
    by (rule bit_word_eqI) (auto simp add: bit_simps dest: bit_imp_le_length)
  moreover have "(ucast (ucast item :: 32 word) :: 16 word) = item"
    by (rule bit_word_eqI) (auto simp add: bit_simps)
  ultimately show ?thesis by (simp add: item16_to_sc16_def del: unsigned_drop_bit_eq)
qed

text \<open>
  Claim C3. \<open>sc16_to_item16\<close> does not truncate the imaginary component to 8 bits
  before the \<open>|\<close>: for the sample \<open>(0, -1)\<close> the item is \<open>0xFFFF\<close>, the upper byte
  of the imaginary component in the field of the real one, where the layout asks for
  \<open>0x00FF\<close>. \<open>fc32_to_item16\<close> packs the same way.
\<close>

theorem item16_imag_spills_into_real:
  "sc16_to_item16 \<lparr> re = 0, im = - 1 \<rparr> (Finite False 1 0) = 0xFFFF
   \<and> drop_bit 8 (sc16_to_item16 \<lparr> re = 0, im = - 1 \<rparr> (Finite False 1 0)) = 0xFF
   \<and> fc32_to_item16 \<lparr> re = Finite False 0 0, im = Finite True 1 0 \<rparr> (Finite False 1 0)
       = Some 0xFFFF"
  by (simp add: sc16_to_item16_def fc32_to_item16_def round_to_def binary32_def finite_fp_def
      bitlen.simps normalize_odd.simps truncate_magnitude_def Let_def
      unsigned_minus_1_eq_mask mask_eq_exp_minus_1)

text \<open>
  Claim C4. \<open>item16_to_sc16\<close> and \<open>item16_to_fc32\<close> read the upper byte of an item
  unsigned and take the whole 16-bit item as the imaginary component: for the item
  \<open>0xFF00\<close> the components are \<open>255\<close> and \<open>-256\<close>, where 8-bit two's-complement
  fields give \<open>-1\<close> and \<open>0\<close>.
\<close>

theorem item16_fields_not_sign_extended:
  "sint (re (item16_to_sc16 0xFF00 (Finite False 1 0))) = 255
   \<and> sint (im (item16_to_sc16 0xFF00 (Finite False 1 0))) = - 256
   \<and> item16_to_fc32 0xFF00 (Finite False 1 0)
       = \<lparr> re = Finite False 255 0, im = Finite True 1 8 \<rparr>"
  by (simp add: item16_to_sc16_def item16_to_fc32_def fp_of_int_def round_to_def
      binary32_def finite_fp_def bitlen.simps normalize_odd.simps Let_def)


section \<open>Rounding\<close>

lemma bitlen_le_iff: "bitlen m \<le> k \<longleftrightarrow> m < 2 ^ k"
proof (induction m arbitrary: k rule: bitlen.induct)
  case (1 m)
  show ?case
  proof (cases "m = 0")
    case True
    then show ?thesis by (simp add: bitlen.simps)
  next
    case False
    show ?thesis
    proof (cases k)
      case 0
      with False show ?thesis by (simp add: bitlen.simps [of m])
    next
      case (Suc j)
      have "bitlen m \<le> Suc j \<longleftrightarrow> bitlen (m div 2) \<le> j"
        using False by (simp add: bitlen.simps [of m])
      also have "\<dots> \<longleftrightarrow> m div 2 < 2 ^ j"
        using "1.IH" [OF False] .
      also have "\<dots> \<longleftrightarrow> m < 2 ^ Suc j"
        by auto
      finally show ?thesis using Suc by simp
    qed
  qed
qed

lemma bitlen_double: "0 < m \<Longrightarrow> bitlen (2 * m) = Suc (bitlen m)"
  by (simp add: bitlen.simps [of "2 * m"])

lemma bitlen_shift: "0 < m \<Longrightarrow> bitlen (m * 2 ^ k) = bitlen m + k"
proof (induction k)
  case 0
  then show ?case by simp
next
  case (Suc k)
  have "bitlen (m * 2 ^ Suc k) = bitlen (2 * (m * 2 ^ k))"
    by (simp add: mult.commute mult.left_commute)
  also have "\<dots> = Suc (bitlen (m * 2 ^ k))"
    using Suc.prems by (intro bitlen_double) simp
  finally show ?case using Suc by simp
qed

lemma normalize_odd_zero: "normalize_odd 0 e = (0, 0)"
  by (simp add: normalize_odd.simps)

lemma normalize_odd_props:
  "0 < m \<Longrightarrow> normalize_odd m e = (m', e') \<Longrightarrow>
     odd m' \<and> e \<le> e' \<and> m = m' * 2 ^ nat (e' - e)"
proof (induction m e rule: normalize_odd.induct)
  case (1 m e)
  show ?case
  proof (cases "odd m")
    case True
    with "1.prems" show ?thesis by (simp add: normalize_odd.simps [of m e])
  next
    case False
    then have ev: "even m" by simp
    with "1.prems" have pos: "0 < m div 2" by (auto elim: evenE)
    have rec: "normalize_odd (m div 2) (e + 1) = (m', e')"
      using "1.prems" ev by (simp add: normalize_odd.simps [of m e])
    have ih: "odd m' \<and> e + 1 \<le> e' \<and> m div 2 = m' * 2 ^ nat (e' - (e + 1))"
      using "1.IH" [OF _ _ pos rec] "1.prems" ev by simp
    then have "nat (e' - e) = Suc (nat (e' - (e + 1)))" by linarith
    moreover have "m = 2 * (m div 2)" using ev by simp
    ultimately show ?thesis using ih by simp
  qed
qed

lemma normalize_odd_shift: "odd m \<Longrightarrow> normalize_odd (m * 2 ^ k) (e - int k) = (m, e)"
proof (induction k arbitrary: e)
  case 0
  then show ?case by (auto simp add: normalize_odd.simps [of m e])
next
  case (Suc k)
  have nz: "m * 2 ^ Suc k \<noteq> 0" using Suc.prems by (auto simp: odd_pos)
  have "normalize_odd (m * 2 ^ Suc k) (e - int (Suc k)) = normalize_odd (m * 2 ^ k) (e - int k)"
    using nz by (subst normalize_odd.simps) (simp add: algebra_simps)
  then show ?case using Suc by simp
qed


lemma finite_fp_representable:
  assumes p: "0 < prec f"
    and t: "t \<le> 2 ^ nat (prec f)"
    and q: "emin f - prec f + 1 \<le> q"
    and ov: "int (bitlen t) + q \<le> emax f + 1"
  shows "representable f (finite_fp s t q)"
proof (cases "t = 0")
  case True
  then show ?thesis by (simp add: finite_fp_def normalize_odd_zero)
next
  case False
  obtain m' e' where n: "normalize_odd t q = (m', e')" by (cases "normalize_odd t q")
  from False have "0 < t" by simp
  from normalize_odd_props [OF this n]
  have odd: "odd m'" and le: "q \<le> e'" and eq: "t = m' * 2 ^ nat (e' - q)" by simp_all
  from odd have pos: "0 < m'" by (simp add: odd_pos)
  have "m' \<le> t" using eq by simp
  with t have "m' \<le> 2 ^ nat (prec f)" by simp
  moreover have "even ((2::nat) ^ nat (prec f))" using p by simp
  ultimately have lt: "m' < 2 ^ nat (prec f)" using odd by (metis le_neq_implies_less)
  have "bitlen t = bitlen m' + nat (e' - q)"
    using bitlen_shift [OF pos] eq by simp
  then have "int (bitlen m') + e' = int (bitlen t) + q" using le by simp
  with ov have "int (bitlen m') + e' \<le> emax f + 1" by simp
  with odd lt le q pos show ?thesis by (simp add: finite_fp_def n)
qed

lemma round_to_representable:
  assumes p: "0 < prec f"
  shows "representable f (round_to f s m e)"
proof (cases "m = 0")
  case True
  then show ?thesis by (simp add: round_to_def)
next
  case False
  then have mpos: "0 < m" by simp
  define q where "q = max (int (bitlen m) + e - prec f) (emin f - prec f + 1)"
  define t where "t = (if q \<le> e then m * 2 ^ nat (e - q)
                 else
                   let d = 2 ^ nat (q - e);
                       t0 = m div d;
                       r = m mod d
                   in if d < 2 * r \<or> (2 * r = d \<and> odd t0) then t0 + 1 else t0)"
  have r: "round_to f s m e = (if emax f + 1 < int (bitlen t) + q then Infinity s else finite_fp s t q)"
    using False by (simp add: round_to_def q_def t_def Let_def)
  have q1: "emin f - prec f + 1 \<le> q" and q2: "int (bitlen m) + e - prec f \<le> q"
    by (simp_all add: q_def)
  have tb: "t \<le> 2 ^ nat (prec f)"
  proof (cases "q \<le> e")
    case True
    then have "t = m * 2 ^ nat (e - q)" by (simp add: t_def)
    then have "bitlen t = bitlen m + nat (e - q)" using bitlen_shift [OF mpos] by simp
    with q2 True have "bitlen t \<le> nat (prec f)" by linarith
    then have "t < 2 ^ nat (prec f)" by (simp add: bitlen_le_iff)
    then show ?thesis by simp
  next
    case False
    define k where "k = nat (q - e)"
    have "bitlen m \<le> nat (prec f) + k" using q2 False p by (simp add: k_def)
    then have "m < 2 ^ (nat (prec f) + k)" by (simp add: bitlen_le_iff)
    then have "m div 2 ^ k < 2 ^ nat (prec f)"
      by (simp add: less_mult_imp_div_less power_add)
    moreover have "t \<le> m div 2 ^ k + 1" using False by (simp add: t_def Let_def k_def)
    ultimately show ?thesis by simp
  qed
  show ?thesis
  proof (cases "emax f + 1 < int (bitlen t) + q")
    case True
    then show ?thesis by (simp add: r)
  next
    case False
    then have "int (bitlen t) + q \<le> emax f + 1" by simp
    from finite_fp_representable [OF p tb q1 this] False show ?thesis by (simp add: r)
  qed
qed

lemma fp_convert_representable: "0 < prec f \<Longrightarrow> representable f (fp_convert f x)"
  by (cases x) (simp_all add: round_to_representable)

lemma round_to_exact:
  assumes "representable f (Finite s m e)"
  shows "round_to f s m e = Finite s m e"
proof (cases "m = 0")
  case True
  with assms show ?thesis by (simp add: round_to_def)
next
  case False
  with assms have odd: "odd m" and lt: "m < 2 ^ nat (prec f)" and lo: "emin f - prec f + 1 \<le> e"
    and hi: "int (bitlen m) + e \<le> emax f + 1"
    by simp_all
  have mpos: "0 < m" using False by simp
  from lt have b: "bitlen m \<le> nat (prec f)" by (simp add: bitlen_le_iff)
  have "0 < nat (prec f)" using lt mpos by (cases "nat (prec f)") simp_all
  with b have b': "int (bitlen m) \<le> prec f" by simp
  define q where "q = max (int (bitlen m) + e - prec f) (emin f - prec f + 1)"
  have qe: "q \<le> e" using b' lo by (simp add: q_def)
  define k where "k = nat (e - q)"
  have bl: "int (bitlen (m * 2 ^ k)) + q = int (bitlen m) + e"
    using bitlen_shift [OF mpos, of k] qe by (simp add: k_def)
  have "round_to f s m e = finite_fp s (m * 2 ^ k) q"
    using False qe hi bl
    by (simp add: round_to_def q_def [symmetric] k_def [symmetric] Let_def)
  also have "\<dots> = Finite s m e"
    using normalize_odd_shift [OF odd, of k e] qe by (simp add: finite_fp_def k_def)
  finally show ?thesis .
qed

lemma fp_convert_exact: "representable f x \<Longrightarrow> fp_convert f x = x"
  by (cases x) (simp_all add: round_to_exact)

lemma representable_widen: "representable binary32 x \<Longrightarrow> representable binary64 x"
proof (cases x)
  case (Finite s m e)
  assume r: "representable binary32 x"
  show ?thesis
  proof (cases "m = 0")
    case True
    with r Finite show ?thesis by simp
  next
    case False
    with r Finite have odd: "odd m" and lt: "m < 2 ^ 24" and lo: "- 149 \<le> e"
      and hi: "int (bitlen m) + e \<le> 128"
      by (simp_all add: binary32_def)
    have "(2::nat) ^ 24 \<le> 2 ^ 53" by simp
    with lt have "m < 2 ^ 53" by linarith
    with odd lo hi False Finite show ?thesis by (simp add: binary64_def)
  qed
qed simp_all

lemma widen_exact:
  "representable binary32 x \<Longrightarrow> fp_convert binary64 x = x"
  by (rule fp_convert_exact) (rule representable_widen)

text \<open>The equations that evaluate the floating-point operations on numerals.\<close>

lemmas fp_eval =
  round_to_def finite_fp_def fp_of_int_def truncate_magnitude_def binary32_def binary64_def
  bitlen.simps normalize_odd.simps Let_def

text \<open>
  The rounding on known values: \<open>0.1\<close> as a \<open>float\<close>; ties to even at \<open>2\<^sup>2\<^sup>4 + 1\<close>
  and \<open>2\<^sup>2\<^sup>4 + 3\<close>; half the least subnormal and one and a half of it; overflow at
  \<open>2\<^sup>1\<^sup>2\<^sup>8 - 2\<^sup>1\<^sup>0\<^sup>3\<close> and the tie below the largest \<open>float\<close>; the \<open>float\<close>
  product of \<open>0.7\<close> and \<open>10\<close>, which is \<open>7\<close>.
\<close>

lemma round_to_examples:
  "round_to binary32 False 3602879701896397 (- 55) = Finite False 13421773 (- 27)"
  "round_to binary32 False 16777217 0 = Finite False 1 24"
  "round_to binary32 False 16777219 0 = Finite False 4194305 2"
  "round_to binary32 False 1 (- 150) = Finite False 0 0"
  "round_to binary32 False 3 (- 150) = Finite False 1 (- 148)"
  "round_to binary32 True 33554431 103 = Infinity True"
  "round_to binary32 False 33554429 103 = Finite False 8388607 105"
  "fmul binary32 (Finite False 11744051 (- 24)) (Finite False 5 1) = Finite False 7 0"
  by (simp_all add: fp_eval)

text \<open>
  Claim C9. Every component that \<open>item32_to_fc64\<close> and \<open>item16_to_fc64\<close> return is
  a value of the single-precision format, for every item and every scale factor: it is
  the \<open>double\<close> product of the integer component and the scale factor, rounded to
  \<open>float\<close>; widening it back to \<open>double\<close> changes nothing.
\<close>

theorem fc64_outputs_single_precision:
  fixes item :: item32_t and item' :: item16_t and sf :: c_double
  shows "representable binary32 (re (item32_to_fc64 item sf))
         \<and> representable binary32 (im (item32_to_fc64 item sf))
         \<and> representable binary32 (re (item16_to_fc64 item' sf))
         \<and> representable binary32 (im (item16_to_fc64 item' sf))
         \<and> re (item32_to_fc64 item sf)
             = fp_convert binary32
                 (fmul binary64 (fp_of_int binary64 (sint (re (item32_to_sc16 item sf)))) sf)
         \<and> im (item32_to_fc64 item sf)
             = fp_convert binary32
                 (fmul binary64 (fp_of_int binary64 (sint (im (item32_to_sc16 item sf)))) sf)
         \<and> re (item16_to_fc64 item' sf)
             = fp_convert binary32
                 (fmul binary64 (fp_of_int binary64 (sint (re (item16_to_sc16 item' sf)))) sf)
         \<and> im (item16_to_fc64 item' sf)
             = fp_convert binary32
                 (fmul binary64 (fp_of_int binary64 (sint (im (item16_to_sc16 item' sf)))) sf)"
proof -
  have w: "fp_convert binary64 (fp_convert binary32 x) = fp_convert binary32 x" for x
    by (rule widen_exact) (simp add: fp_convert_representable binary32_def)
  have r: "representable binary32 (fp_convert binary32 x)" for x
    by (simp add: fp_convert_representable binary32_def)
  show ?thesis
    by (simp add: item32_to_fc64_def item16_to_fc64_def item32_to_sc16_def item16_to_sc16_def
        w r del: drop_bit_or unsigned_drop_bit_eq)
qed

text \<open>
  With the scale factor \<open>0.1\<close> (as a \<open>double\<close>, \<open>3602879701896397 \<cdot> 2\<^sup>-\<^sup>5\<^sup>5\<close>)
  the component \<open>1\<close> becomes the \<open>float\<close> nearest to \<open>0.1\<close>,
  \<open>13421773 \<cdot> 2\<^sup>-\<^sup>2\<^sup>7\<close>, not the \<open>double\<close>.
\<close>

theorem fc64_outputs_single_precision_witness:
  "representable binary32 (re (item32_to_fc64 0x00010000 (Finite False 3602879701896397 (- 55))))
   \<and> re (item32_to_fc64 0x00010000 (Finite False 3602879701896397 (- 55)))
       = Finite False 13421773 (- 27)"
  using fc64_outputs_single_precision [of "0x00010000" "Finite False 3602879701896397 (- 55)" 0]
  by (simp add: item32_to_sc16_def fp_eval)

text \<open>
  Claim C5. With the scale factor \<open>1.0\<close> the item \<open>0x00100020\<close> converts to the
  complex double \<open>(16.0, 32.0)\<close>, and \<open>(16.0, 32.0)\<close> converts back to
  \<open>0x00100020\<close>.
\<close>

theorem round_trip_0x00100020:
  "item32_to_fc64 0x00100020 (Finite False 1 0) = \<lparr> re = Finite False 1 4, im = Finite False 1 5 \<rparr>
   \<and> fp_real (Finite False 1 4) = Some 16
   \<and> fp_real (Finite False 1 5) = Some 32
   \<and> fc64_to_item32 \<lparr> re = Finite False 1 4, im = Finite False 1 5 \<rparr> (Finite False 1 0)
       = Some 0x00100020"
  by (simp add: item32_to_fc64_def fc64_to_item32_def fp_eval)

theorem round_trip_0x00100020_witness:
  "fc64_to_item32 (item32_to_fc64 0x00100020 (Finite False 1 0)) (Finite False 1 0)
     = Some 0x00100020"
  using round_trip_0x00100020 by simp

section \<open>Truncation in the floating-to-fixed converters\<close>

lemma truncate_real:
  assumes "fp_real (Finite s m e) = Some x"
  shows "truncate_toward_zero x =
           (if s then - int (truncate_magnitude m e) else int (truncate_magnitude m e))"
proof -
  define y :: real where "y = (if 0 \<le> e then of_nat m * 2 ^ nat e else of_nat m / 2 ^ nat (- e))"
  have y0: "0 \<le> y" by (simp add: y_def)
  have fl: "\<lfloor>y\<rfloor> = int (truncate_magnitude m e)"
  proof (cases "0 \<le> e")
    case True
    then have "y = of_int (int (m * 2 ^ nat e))" by (simp add: y_def)
    then have "\<lfloor>y\<rfloor> = int (m * 2 ^ nat e)" by (simp only: floor_of_int)
    with True show ?thesis by (simp add: truncate_magnitude_def)
  next
    case False
    then have "y = of_nat m / of_nat (2 ^ nat (- e))" by (simp add: y_def)
    then have "\<lfloor>y\<rfloor> = int (m div 2 ^ nat (- e))" by (simp only: floor_divide_of_nat_eq)
    with False show ?thesis by (simp add: truncate_magnitude_def)
  qed
  have x: "x = (if s then - y else y)" using assms by (auto simp add: y_def)
  show ?thesis
  proof (cases s)
    case True
    with x have xy: "x = - y" by simp
    show ?thesis
    proof (cases "y = 0")
      case True
      with xy fl \<open>s\<close> show ?thesis by (simp add: truncate_toward_zero_def)
    next
      case False
      with y0 xy have "x < 0" by simp
      then have "truncate_toward_zero x = \<lceil>- y\<rceil>" by (simp add: truncate_toward_zero_def xy)
      also have "\<dots> = - \<lfloor>y\<rfloor>" by (simp add: ceiling_def)
      finally show ?thesis using fl \<open>s\<close> by simp
    qed
  next
    case False
    with x y0 fl show ?thesis by (simp add: truncate_toward_zero_def)
  qed
qed

lemma fp_to_int16_truncates:
  assumes "fp_real p = Some x" "- 32768 \<le> truncate_toward_zero x" "truncate_toward_zero x \<le> 32767"
  shows "\<exists>w. fp_to_int16 p = Some w \<and> sint w = truncate_toward_zero x"
proof (cases p)
  case (Finite s m e)
  define t where "t = (if s then - int (truncate_magnitude m e) else int (truncate_magnitude m e))"
  have tx: "truncate_toward_zero x = t"
    using truncate_real [of s m e x] assms(1) Finite by (simp add: t_def)
  with assms have r: "- 32768 \<le> t" "t \<le> 32767" by simp_all
  then have "fp_to_int16 p = Some (word_of_int t)"
    using Finite by (simp add: t_def Let_def)
  moreover have "sint (word_of_int t :: 16 word) = t"
    using r by (simp add: int_word_sint)
  ultimately show ?thesis using tx by simp
next
  case (Infinity s)
  with assms show ?thesis by simp
next
  case NaN
  with assms show ?thesis by simp
qed

lemma pack_truncated:
  assumes "fp_to_int16 p = Some a" "fp_to_int16 p' = Some b"
  shows "\<exists>item. (case fp_to_int16 p of
        None \<Rightarrow> None
      | Some (real_u :: uint16_t) \<Rightarrow>
          (case fp_to_int16 p' of
             None \<Rightarrow> None
           | Some (imag_u :: uint16_t) \<Rightarrow>
               Some (push_bit 16 (ucast real_u :: item32_t) OR push_bit 0 (ucast imag_u :: item32_t))))
       = Some item \<and> re (item32_to_sc16 item sf) = a \<and> im (item32_to_sc16 item sf) = b"
  using assms by (simp add: item32_to_sc16_def hi16_join lo16_join del: drop_bit_or)

text \<open>
  Claim C1, amended. Whenever the two products of a component and the scale factor (in
  \<open>float\<close> arithmetic for \<open>fc32_to_item32\<close>, in \<open>double\<close> arithmetic for
  \<open>fc64_to_item32\<close>) are finite and their truncations toward zero are values of
  \<open>int16_t\<close>, the converter returns the item whose real and imaginary components are
  these truncations.
\<close>

theorem float_to_fixed_truncates:
  fixes num :: "fp std_complex" and sf :: fp
  shows
    "(fp_real (fmul binary32 (re num) sf) = Some x
      \<and> fp_real (fmul binary32 (im num) sf) = Some y
      \<and> - 32768 \<le> truncate_toward_zero x \<and> truncate_toward_zero x \<le> 32767
      \<and> - 32768 \<le> truncate_toward_zero y \<and> truncate_toward_zero y \<le> 32767
      \<longrightarrow> (\<exists>item. fc32_to_item32 num sf = Some item
             \<and> sint (re (item32_to_sc16 item sf)) = truncate_toward_zero x
             \<and> sint (im (item32_to_sc16 item sf)) = truncate_toward_zero y))
     \<and> (fp_real (fmul binary64 (re num) sf) = Some x'
      \<and> fp_real (fmul binary64 (im num) sf) = Some y'
      \<and> - 32768 \<le> truncate_toward_zero x' \<and> truncate_toward_zero x' \<le> 32767
      \<and> - 32768 \<le> truncate_toward_zero y' \<and> truncate_toward_zero y' \<le> 32767
      \<longrightarrow> (\<exists>item. fc64_to_item32 num sf = Some item
             \<and> sint (re (item32_to_sc16 item sf)) = truncate_toward_zero x'
             \<and> sint (im (item32_to_sc16 item sf)) = truncate_toward_zero y'))"
proof -
  have gen: "\<exists>item. (case fp_to_int16 p of
        None \<Rightarrow> None
      | Some (real_u :: uint16_t) \<Rightarrow>
          (case fp_to_int16 p' of
             None \<Rightarrow> None
           | Some (imag_u :: uint16_t) \<Rightarrow>
               Some (push_bit 16 (ucast real_u :: item32_t) OR push_bit 0 (ucast imag_u :: item32_t))))
       = Some item \<and> sint (re (item32_to_sc16 item sf)) = truncate_toward_zero u
                    \<and> sint (im (item32_to_sc16 item sf)) = truncate_toward_zero v"
    if "fp_real p = Some u" "fp_real p' = Some v"
      "- 32768 \<le> truncate_toward_zero u" "truncate_toward_zero u \<le> 32767"
      "- 32768 \<le> truncate_toward_zero v" "truncate_toward_zero v \<le> 32767"
    for p p' u v
  proof -
    from fp_to_int16_truncates [OF that(1,3,4)]
    obtain a where a: "fp_to_int16 p = Some a" "sint a = truncate_toward_zero u" by blast
    from fp_to_int16_truncates [OF that(2,5,6)]
    obtain b where b: "fp_to_int16 p' = Some b" "sint b = truncate_toward_zero v" by blast
    from pack_truncated [OF a(1) b(1), of sf] a(2) b(2) show ?thesis by auto
  qed
  show ?thesis
    unfolding fc32_to_item32_def fc64_to_item32_def
    by (intro conjI impI gen) simp_all
qed

text \<open>
  The \<open>float\<close> and the \<open>double\<close> nearest to \<open>1.9999\<close>, and their negations, with
  the scale factor \<open>1.0\<close>: the components are \<open>1\<close> and \<open>-1\<close>, not \<open>2\<close> and \<open>-2\<close>.
\<close>

theorem float_to_fixed_truncates_witness:
  "(\<exists>item. fc32_to_item32 \<lparr> re = Finite False 16776377 (- 23), im = Finite True 16776377 (- 23) \<rparr>
              (Finite False 1 0) = Some item
          \<and> sint (re (item32_to_sc16 item (Finite False 1 0))) = 1
          \<and> sint (im (item32_to_sc16 item (Finite False 1 0))) = - 1)
   \<and> (\<exists>item. fc64_to_item32 \<lparr> re = Finite False 9006748894778255 (- 52), im = Finite True 9006748894778255 (- 52) \<rparr>
              (Finite False 1 0) = Some item
          \<and> sint (re (item32_to_sc16 item (Finite False 1 0))) = 1
          \<and> sint (im (item32_to_sc16 item (Finite False 1 0))) = - 1)"
proof -
  have a: "\<lfloor>16776377 / 8388608 :: real\<rfloor> = 1" "\<lceil>- (16776377 / 8388608) :: real\<rceil> = - 1"
    "\<lfloor>9006748894778255 / 4503599627370496 :: real\<rfloor> = 1"
    "\<lceil>- (9006748894778255 / 4503599627370496) :: real\<rceil> = - 1"
    by (simp_all add: floor_eq_iff ceiling_eq_iff)
  show ?thesis
  using float_to_fixed_truncates
    [of "\<lparr> re = Finite False 16776377 (- 23), im = Finite True 16776377 (- 23) \<rparr>" "Finite False 1 0"
       "16776377 / 8388608" "- (16776377 / 8388608)"] 
   float_to_fixed_truncates
    [of "\<lparr> re = Finite False 9006748894778255 (- 52), im = Finite True 9006748894778255 (- 52) \<rparr>" "Finite False 1 0"
       _ _ "9006748894778255 / 4503599627370496" "- (9006748894778255 / 4503599627370496)"]
  by (simp add: fp_eval truncate_toward_zero_def a)
qed

text \<open>
  Claim C1 as stated, for every sample and scale factor, fails: the product of
  \<open>40000.0\<close> and \<open>1.0\<close> truncates to \<open>40000\<close>, which is no value of \<open>int16_t\<close>, and
  the conversion is undefined.
\<close>

theorem float_to_fixed_out_of_range:
  "fp_real (fmul binary32 (Finite False 625 6) (Finite False 1 0)) = Some 40000
   \<and> truncate_toward_zero 40000 = 40000
   \<and> fc32_to_item32 \<lparr> re = Finite False 625 6, im = Finite False 0 0 \<rparr> (Finite False 1 0) = None
   \<and> fc64_to_item32 \<lparr> re = Finite False 625 6, im = Finite False 0 0 \<rparr> (Finite False 1 0) = None"
  by (simp add: fc32_to_item32_def fc64_to_item32_def fp_eval truncate_toward_zero_def)

section \<open>Reading back a property\<close>

text \<open>
  Claim C6. On a node without publisher and without coercion, \<open>get\<close> after \<open>set\<close> of
  a value of the node's type returns that value, also when a subscriber of the node
  failed during the \<open>set\<close>.
\<close>

theorem set_then_get:
  fixes t :: "'hw property_tree"
  assumes "nodes t p = Some n" "publisher n = None" "coercions n = []" "type_of v = node_type n"
  shows "get_value p (fst (set_value p v t)) = Inr v"
  using assms by (simp add: set_value_def get_value_def split: prod.splits)

text \<open>A node with one subscriber that logs the value and one that fails.\<close>

theorem set_then_get_witness:
  "get_value ''/mboards/0/tick_rate''
     (fst (set_value ''/mboards/0/tick_rate'' (V_floating (Finite False 15625 12))
        \<lparr> nodes = [''/mboards/0/tick_rate'' \<mapsto>
                     \<lparr> node_type = T_floating, current = None, coercions = [],
                       subscribers = [\<lambda>v h. Some (v # h), \<lambda>v h. None], publisher = None \<rparr>],
          hardware = ([] :: prop_value list) \<rparr>))
   = Inr (V_floating (Finite False 15625 12))"
  using set_then_get
    [of "\<lparr> nodes = [''/mboards/0/tick_rate'' \<mapsto>
                     \<lparr> node_type = T_floating, current = None, coercions = [],
                       subscribers = [\<lambda>v h. Some (v # h), \<lambda>v h. None], publisher = None \<rparr>],
          hardware = ([] :: prop_value list) \<rparr>"
        "''/mboards/0/tick_rate''"
        "\<lparr> node_type = T_floating, current = None, coercions = [],
                       subscribers = [\<lambda>v h. Some (v # h), \<lambda>v h. None], publisher = None \<rparr>"
        "V_floating (Finite False 15625 12)"]
  by simp

section \<open>The order of the bring-up\<close>

text \<open>The group of each path the constructor creates.\<close>

lemma group_literal:
  "bring_up_group ''/name'' = Some Capabilities"
  "bring_up_group ''/mboards/0/name'' = Some Capabilities"
  "bring_up_group ''/mboards/0/load_eeprom'' = Some Capabilities"
  "bring_up_group ''/mboards/0/eeprom'' = Some Capabilities"
  "bring_up_group ''/mboards/0/tick_rate'' = Some Clock"
  "bring_up_group ''/mboards/0/sensors'' = Some Sensors"
  "bring_up_group ''/mboards/0/rx_subdev_spec'' = Some Frontends"
  "bring_up_group ''/mboards/0/tx_subdev_spec'' = Some Frontends"
  "bring_up_group ''/mboards/0/rx_dsps'' = Some Dsp_stages"
  "bring_up_group ''/mboards/0/tx_dsps'' = Some Dsp_stages"
  by (simp_all add: bring_up_group_def)

lemma group_prefix:
  "bring_up_group (''/mboards/0/rx_codecs/'' @ x) = Some Codecs"
  "bring_up_group (''/mboards/0/tx_codecs/'' @ x) = Some Codecs"
  "bring_up_group (''/mboards/0/rx_dsps/'' @ x) = Some Dsp_stages"
  "bring_up_group (''/mboards/0/tx_dsps/'' @ x) = Some Dsp_stages"
  "bring_up_group (''/mboards/0/time/'' @ x) = Some Time"
  "bring_up_group (''/mboards/0/clock_source/'' @ x) = Some Time"
  "bring_up_group (''/mboards/0/time_source/'' @ x) = Some Time"
  "bring_up_group (''/mboards/0/dboards/'' @ x) = Some Daughterboards"
  by (simp_all add: bring_up_group_def)


lemmas group_path = group_literal group_prefix [simplified]

lemma group_codec: "p \<in> set (codec_creates db) \<Longrightarrow> bring_up_group p = Some Codecs"
  by (auto simp add: codec_creates_def slash_def mb_path_def Let_def group_path)

lemma group_rx_dsp: "p \<in> set (rx_dsp_creates n) \<Longrightarrow> bring_up_group p = Some Dsp_stages"
  by (auto simp add: rx_dsp_creates_def slash_def mb_path_def Let_def group_path)

lemma group_tx_dsp: "p \<in> set (tx_dsp_creates n) \<Longrightarrow> bring_up_group p = Some Dsp_stages"
  by (auto simp add: tx_dsp_creates_def slash_def mb_path_def Let_def group_path)

lemma group_dboard:
  "p \<in> set (dboard_creates env db) \<Longrightarrow> bring_up_group p = Some Daughterboards"
  by (auto simp add: dboard_creates_def subdev_creates_def subtree_create_def slash_def
      mb_path_def Let_def group_path)

lemma in_order_same:
  "bring_up_group a = Some g \<Longrightarrow> bring_up_group b = Some h \<Longrightarrow>
     in_order a b = (group_rank g \<le> group_rank h)"
  by (simp add: in_order_def)

lemma sorted_same_group:
  "\<forall>p \<in> set ps. bring_up_group p = Some g \<Longrightarrow> sorted_wrt in_order ps"
  by (induction ps) (auto simp add: in_order_def)

lemma in_order_creates: "sorted_wrt in_order (usrp1_impl_creates env)"
proof -
  have c: "\<forall>p \<in> set (concat (map codec_creates dbs)). bring_up_group p = Some Codecs" for dbs
    by (auto simp add: group_codec)
  have r: "\<forall>p \<in> set (concat (map rx_dsp_creates ns)). bring_up_group p = Some Dsp_stages" for ns
    by (auto simp add: group_rx_dsp)
  have t: "\<forall>p \<in> set (concat (map tx_dsp_creates ns)). bring_up_group p = Some Dsp_stages" for ns
    by (auto simp add: group_tx_dsp)
  have d: "\<forall>p \<in> set (concat (map (dboard_creates env) dbs)). bring_up_group p = Some Daughterboards"
    for dbs
    by (auto simp add: group_dboard)
  show ?thesis
    unfolding usrp1_impl_creates_def
    using c [of dbc_keys] r [of "[0 ..< get_num_ddcs (fr_rb_caps env)]"]
      t [of "[0 ..< get_num_ducs (fr_rb_caps env)]"] d [of dbc_keys]
      sorted_same_group [OF c [of dbc_keys]]
      sorted_same_group [OF r [of "[0 ..< get_num_ddcs (fr_rb_caps env)]"]]
      sorted_same_group [OF t [of "[0 ..< get_num_ducs (fr_rb_caps env)]"]]
      sorted_same_group [OF d [of dbc_keys]]
    by (fastforce simp add: sorted_wrt_append in_order_def slash_def mb_path_def group_path
        simp del: set_concat)
qed

text \<open>
  Claim C8, amended. In every run of the constructor, complete or ended by an exception,
  every node created has a group by its path, and a node of a later group is never
  created before one of an earlier group, in the order: identity nodes, clock
  (\<open>tick_rate\<close>), codec nodes, the sensors node, the subdevice selection nodes, DSP stage
  nodes, time and reference source nodes, daughterboard nodes; the last group holds
  every node below \<open>dboards\<close>, the nodes of the frontends among them.
\<close>

theorem bring_up_order:
  assumes "i < j" "j < length (usrp1_impl_run env k)"
  shows "\<exists>g h. bring_up_group (usrp1_impl_run env k ! i) = Some g
           \<and> bring_up_group (usrp1_impl_run env k ! j) = Some h
           \<and> group_rank g \<le> group_rank h"
proof -
  have "sorted_wrt in_order (usrp1_impl_run env k)"
    unfolding usrp1_impl_run_def by (rule sorted_wrt_take) (rule in_order_creates)
  with assms have "in_order (usrp1_impl_run env k ! i) (usrp1_impl_run env k ! j)"
    by (simp add: sorted_wrt_iff_nth_less)
  then show ?thesis
    by (auto simp add: in_order_def split: option.splits)
qed


text \<open>
  A complete run on a device with two DDCs and two DUCs and one subdevice with one node
  on each side of each daughterboard.
\<close>

lemma run_eval:
  "length (usrp1_impl_run
        \<lparr> fr_rb_caps = 0x22, get_rx_subdev_names = (\<lambda>db. [''0'']),
          get_tx_subdev_names = (\<lambda>db. [''0'']),
          populate_prop_tree_from_subdev = (\<lambda>p. [''name'']) \<rparr> 100) = 53"
  "usrp1_impl_run
        \<lparr> fr_rb_caps = 0x22, get_rx_subdev_names = (\<lambda>db. [''0'']),
          get_tx_subdev_names = (\<lambda>db. [''0'']),
          populate_prop_tree_from_subdev = (\<lambda>p. [''name'']) \<rparr> 100 ! 4 = ''/mboards/0/tick_rate''"
  "usrp1_impl_run
        \<lparr> fr_rb_caps = 0x22, get_rx_subdev_names = (\<lambda>db. [''0'']),
          get_tx_subdev_names = (\<lambda>db. [''0'']),
          populate_prop_tree_from_subdev = (\<lambda>p. [''name'']) \<rparr> 100 ! 17 = ''/mboards/0/sensors''"
  "usrp1_impl_run
        \<lparr> fr_rb_caps = 0x22, get_rx_subdev_names = (\<lambda>db. [''0'']),
          get_tx_subdev_names = (\<lambda>db. [''0'']),
          populate_prop_tree_from_subdev = (\<lambda>p. [''name'']) \<rparr> 100 ! 36 = ''/mboards/0/time/now''"
  "usrp1_impl_run
        \<lparr> fr_rb_caps = 0x22, get_rx_subdev_names = (\<lambda>db. [''0'']),
          get_tx_subdev_names = (\<lambda>db. [''0'']),
          populate_prop_tree_from_subdev = (\<lambda>p. [''name'']) \<rparr> 100 ! 45 = ''/mboards/0/dboards/A/rx_frontends/0/name''"
  by code_simp+

theorem bring_up_order_witness:
  "(4 :: nat) < 45
   \<and> 45 < length (usrp1_impl_run
        \<lparr> fr_rb_caps = 0x22, get_rx_subdev_names = (\<lambda>db. [''0'']),
          get_tx_subdev_names = (\<lambda>db. [''0'']),
          populate_prop_tree_from_subdev = (\<lambda>p. [''name'']) \<rparr> 100)
   \<and> bring_up_group (usrp1_impl_run
        \<lparr> fr_rb_caps = 0x22, get_rx_subdev_names = (\<lambda>db. [''0'']),
          get_tx_subdev_names = (\<lambda>db. [''0'']),
          populate_prop_tree_from_subdev = (\<lambda>p. [''name'']) \<rparr> 100 ! 4) = Some Clock
   \<and> bring_up_group (usrp1_impl_run
        \<lparr> fr_rb_caps = 0x22, get_rx_subdev_names = (\<lambda>db. [''0'']),
          get_tx_subdev_names = (\<lambda>db. [''0'']),
          populate_prop_tree_from_subdev = (\<lambda>p. [''name'']) \<rparr> 100 ! 45) = Some Daughterboards
   \<and> group_rank Clock \<le> group_rank Daughterboards"
  using bring_up_order
    [of 4 45 "\<lparr> fr_rb_caps = 0x22, get_rx_subdev_names = (\<lambda>db. [''0'']),
          get_tx_subdev_names = (\<lambda>db. [''0'']),
          populate_prop_tree_from_subdev = (\<lambda>p. [''name'']) \<rparr>" 100]
  by (simp add: run_eval bring_up_group_def)

text \<open>
  Claim C8 as stated fails with the groups read off the paths: the node \<open>name\<close> of the
  frontend \<open>0\<close> of daughterboard \<open>A\<close> is created after \<open>time/now\<close>, so a time node
  precedes a frontend node; and the sensors node, created between the codec nodes and
  the subdevice selection, is in none of the seven groups.
\<close>

theorem frontend_nodes_created_last:
  "usrp1_impl_run
        \<lparr> fr_rb_caps = 0x22, get_rx_subdev_names = (\<lambda>db. [''0'']),
          get_tx_subdev_names = (\<lambda>db. [''0'']),
          populate_prop_tree_from_subdev = (\<lambda>p. [''name'']) \<rparr> 100 ! 36 = ''/mboards/0/time/now''
   \<and> spec_group ''/mboards/0/time/now'' = Some Time
   \<and> usrp1_impl_run
        \<lparr> fr_rb_caps = 0x22, get_rx_subdev_names = (\<lambda>db. [''0'']),
          get_tx_subdev_names = (\<lambda>db. [''0'']),
          populate_prop_tree_from_subdev = (\<lambda>p. [''name'']) \<rparr> 100 ! 45 = ''/mboards/0/dboards/A/rx_frontends/0/name''
   \<and> spec_group ''/mboards/0/dboards/A/rx_frontends/0/name'' = Some Frontends
   \<and> group_rank Frontends < group_rank Time
   \<and> usrp1_impl_run
        \<lparr> fr_rb_caps = 0x22, get_rx_subdev_names = (\<lambda>db. [''0'']),
          get_tx_subdev_names = (\<lambda>db. [''0'']),
          populate_prop_tree_from_subdev = (\<lambda>p. [''name'']) \<rparr> 100 ! 17 = ''/mboards/0/sensors''
   \<and> spec_group ''/mboards/0/sensors'' = None"
  by (simp add: run_eval spec_group_def)

end
